theory Spec2Isabelle
  imports Main "HOL-Library.Sublist"
begin

section \<open>Strings\<close>

text \<open>
  A string is a list of code units; the model covers the code units below 256 (ASCII and
  the Latin-1 supplement), which is what a \<^typ>\<open>char\<close> holds. \<open>toLowerCase\<close> maps
  \<open>A\<close>--\<open>Z\<close> and the upper-case letters of Latin-1 (192--222 without the
  multiplication sign 215) 32 places up and leaves every other code unit alone.
  \<open>trim\<close> removes the white space and line terminators of ECMAScript that lie in
  this range from both ends.
\<close>

definition toLowerChar :: "char \<Rightarrow> char" where
  "toLowerChar c =
     (let n = (of_char c :: nat)
      in if (65 \<le> n \<and> n \<le> 90) \<or> (192 \<le> n \<and> n \<le> 222 \<and> n \<noteq> 215)
         then char_of (n + 32) else c)"

definition toLowerCase :: "string \<Rightarrow> string" where
  "toLowerCase s = map toLowerChar s"

definition isWhiteSpace :: "char \<Rightarrow> bool" where
  "isWhiteSpace c = ((of_char c :: nat) \<in> {9, 10, 11, 12, 13, 32, 160})"

definition trim :: "string \<Rightarrow> string" where
  "trim s = rev (dropWhile isWhiteSpace (rev (dropWhile isWhiteSpace s)))"

definition startsWith :: "string \<Rightarrow> string \<Rightarrow> bool" where
  "startsWith s p = prefix p s"

definition endsWith :: "string \<Rightarrow> string \<Rightarrow> bool" where
  "endsWith s p = suffix p s"

definition includesChar :: "string \<Rightarrow> char \<Rightarrow> bool" where
  "includesChar s c = (c \<in> set s)"

text \<open>\<^verbatim>\<open>.replace(/^https?:\/\//, "")\<close>: one leading \<open>http://\<close> or \<open>https://\<close> goes.\<close>

definition stripScheme :: "string \<Rightarrow> string" where
  "stripScheme s =
     (if startsWith s ''https://'' then drop 8 s
      else if startsWith s ''http://'' then drop 7 s
      else s)"

text \<open>\<^verbatim>\<open>.replace(/^www\./, "")\<close>: one leading \<open>www.\<close> goes.\<close>

definition stripWww :: "string \<Rightarrow> string" where
  "stripWww s = (if startsWith s ''www.'' then drop 4 s else s)"

text \<open>\<^verbatim>\<open>.replace(/\/$/, "")\<close>: one slash at the very end goes.\<close>

definition stripTrailingSlash :: "string \<Rightarrow> string" where
  "stripTrailingSlash s = (if s \<noteq> [] \<and> last s = CHR ''/'' then butlast s else s)"

section \<open>Wildcard patterns as regular expressions\<close>

definition backslash :: char where
  "backslash = CHR 0x5C"

text \<open>The character class \<^verbatim>\<open>[.+?^${}()|[\]\\]\<close> of the first replacement.\<close>

definition regexMeta :: "char \<Rightarrow> bool" where
  "regexMeta c = (c \<in> set ''.+?^${}()|[]'' \<or> c = backslash)"

text \<open>
  \<^verbatim>\<open>.replace(/[.+?^${}()|[\]\\]/g, "\\$&").replace(/\*/g, ".*")\<close>: every
  metacharacter gets a backslash in front, then every star becomes \<open>.*\<close>.
\<close>

definition escapeMeta :: "string \<Rightarrow> string" where
  "escapeMeta s = concat (map (\<lambda>c. if regexMeta c then [backslash, c] else [c]) s)"

definition starToDotStar :: "string \<Rightarrow> string" where
  "starToDotStar s = concat (map (\<lambda>c. if c = CHR ''*'' then ''.*'' else [c]) s)"

definition regexPattern :: "string \<Rightarrow> string" where
  "regexPattern p = starToDotStar (escapeMeta p)"

definition isLineTerminator :: "char \<Rightarrow> bool" where
  "isLineTerminator c = ((of_char c :: nat) \<in> {10, 13})"

text \<open>Two code units are equal under the flag \<open>i\<close> when their case foldings are.\<close>

definition sameIgnoringCase :: "char \<Rightarrow> char \<Rightarrow> bool" where
  "sameIgnoringCase c d = (toLowerChar c = toLowerChar d)"

text \<open>
  \<open>regexTest body s\<close> is \<^verbatim>\<open>new RegExp(`^${body}$`, "i").test(s)\<close> for the
  bodies that \<open>regexPattern\<close> produces: a backslash makes the next character a
  literal, \<open>.*\<close> stands for any run of characters other than line terminators, a lone
  dot for one such character, and every other character stands for itself. The whole of
  \<open>s\<close> has to match, since the body sits between \<open>^\<close> and \<open>$\<close>. A body that ends in
  a lone backslash is no regular expression: the constructor throws there and the
  caller's \<open>catch\<close> answers \<open>false\<close>.
\<close>

fun regexTest :: "string \<Rightarrow> string \<Rightarrow> bool" where
  "regexTest [] s = (s = [])"
| "regexTest [c] s =
     (if c = backslash then False
      else if c = CHR ''.'' then (case s of [x] \<Rightarrow> \<not> isLineTerminator x | _ \<Rightarrow> False)
      else (case s of [x] \<Rightarrow> sameIgnoringCase c x | _ \<Rightarrow> False))"
| "regexTest (c # d # r) s =
     (if c = backslash then
        (case s of [] \<Rightarrow> False | x # xs \<Rightarrow> sameIgnoringCase d x \<and> regexTest r xs)
      else if c = CHR ''.'' \<and> d = CHR ''*'' then
        (regexTest r s \<or>
         (case s of [] \<Rightarrow> False
          | x # xs \<Rightarrow> \<not> isLineTerminator x \<and> regexTest (c # d # r) xs))
      else if c = CHR ''.'' then
        (case s of [] \<Rightarrow> False | x # xs \<Rightarrow> \<not> isLineTerminator x \<and> regexTest (d # r) xs)
      else
        (case s of [] \<Rightarrow> False | x # xs \<Rightarrow> sameIgnoringCase c x \<and> regexTest (d # r) xs))"

section \<open>The pattern matcher\<close>

text \<open>
  The fields of the platform's \<open>URL\<close> object. The parser itself (\<^verbatim>\<open>new URL(url)\<close>)
  belongs to the platform: every function below that parses takes it as the parameter
  \<open>newURL\<close>, which answers \<open>None\<close> where the constructor throws.
\<close>

record URL =
  protocol :: string
  username :: string
  password :: string
  hostname :: string
  port :: string
  pathname :: string
  search :: string
  hash :: string

datatype js_error = TypeError

record PatternRule =
  pattern :: string
  allow :: bool

text \<open>
  The value of the local \<open>hostMatches\<close> in the branch for patterns with a path, from the
  lower-cased host name and the host part of the pattern.
\<close>

definition hostMatches :: "string \<Rightarrow> string \<Rightarrow> bool" where
  "hostMatches hostnameL hostPattern =
     (let normalizedHost = stripWww (toLowerCase hostnameL)
      in if startsWith hostPattern ''*.'' then
           (let domain = drop 2 hostPattern
            in normalizedHost = domain \<or> endsWith normalizedHost (''.'' @ domain))
         else if includesChar hostPattern (CHR ''*'') then
           (let regex = regexPattern hostPattern
            in regexTest regex normalizedHost \<or> regexTest regex (toLowerCase hostnameL))
         else
           (normalizedHost = hostPattern \<or>
            toLowerCase hostnameL = hostPattern \<or>
            toLowerCase hostnameL = ''www.'' @ hostPattern))"

definition normalizePattern :: "string \<Rightarrow> string" where
  "normalizePattern p = stripWww (stripScheme (trim (toLowerCase p)))"

text \<open>The body of the \<open>try\<close> block of \<open>urlMatchesPattern\<close>.\<close>

definition urlMatchesPattern_try ::
  "(string \<Rightarrow> URL option) \<Rightarrow> string \<Rightarrow> string \<Rightarrow> js_error + bool" where
  "urlMatchesPattern_try newURL url pat =
     (case newURL url of
        None \<Rightarrow> Inl TypeError
      | Some urlObj \<Rightarrow>
          (let hostnameL = toLowerCase (hostname urlObj);
               pathnameL = toLowerCase (pathname urlObj);
               normalizedPattern = normalizePattern pat
           in if includesChar normalizedPattern (CHR ''/'') then
                (let hostPattern = takeWhile (\<lambda>c. c \<noteq> CHR ''/'') normalizedPattern;
                     pathPattern = dropWhile (\<lambda>c. c \<noteq> CHR ''/'') normalizedPattern;
                     normalizedPath = toLowerCase pathnameL;
                     normalizedPathPattern = toLowerCase pathPattern
                 in if \<not> hostMatches hostnameL hostPattern then Inr False
                    else if includesChar normalizedPathPattern (CHR ''*'') then
                      Inr (regexTest (regexPattern normalizedPathPattern) normalizedPath)
                    else
                      (let cleanPattern = stripTrailingSlash normalizedPathPattern;
                           cleanPath = stripTrailingSlash normalizedPath
                       in Inr (cleanPath = cleanPattern \<or>
                               startsWith cleanPath (cleanPattern @ ''/''))))
              else
                (let normalizedHost = stripWww (toLowerCase hostnameL)
                 in if startsWith normalizedPattern ''*.'' then
                      (let domain = drop 2 normalizedPattern
                       in Inr (normalizedHost = domain \<or>
                               endsWith normalizedHost (''.'' @ domain)))
                    else if includesChar normalizedPattern (CHR ''*'') then
                      (let regex = regexPattern normalizedPattern
                       in Inr (regexTest regex normalizedHost \<or>
                               regexTest regex (toLowerCase hostnameL)))
                    else
                      Inr (normalizedHost = normalizedPattern \<or>
                           toLowerCase hostnameL = normalizedPattern \<or>
                           toLowerCase hostnameL = ''www.'' @ normalizedPattern))))"

text \<open>\<open>urlMatchesPattern\<close>: the \<open>catch\<close> turns every exception into \<open>false\<close>.\<close>

definition urlMatchesPattern :: "(string \<Rightarrow> URL option) \<Rightarrow> string \<Rightarrow> string \<Rightarrow> bool" where
  "urlMatchesPattern newURL url pat =
     (case urlMatchesPattern_try newURL url pat of Inl _ \<Rightarrow> False | Inr b \<Rightarrow> b)"

section \<open>The rule evaluator\<close>

text \<open>
  \<open>UnlockMethod\<close> and \<open>ChallengeSettingsMap\<close> are declared in the challenge components;
  no function below reads them, so they stay type parameters.
\<close>

record ('m, 'c) BlockedSite =
  id_site :: string
  name :: string
  rules :: "PatternRule list"
  unlockMethod :: 'm
  challengeSettings :: 'c
  autoRelockAfter :: "int option"
  enabled :: bool
  createdAt :: int

text \<open>
  The \<open>for\<close> loop of \<open>urlMatchesSiteRules\<close> over the rules that are left, with the
  running flag \<open>isBlocked\<close>; the \<open>return false\<close> inside the loop ends it.
\<close>

fun rulesLoop :: "(string \<Rightarrow> URL option) \<Rightarrow> string \<Rightarrow> PatternRule list \<Rightarrow> bool \<Rightarrow> bool" where
  "rulesLoop newURL url [] isBlocked = isBlocked"
| "rulesLoop newURL url (rule # rest) isBlocked =
     (if urlMatchesPattern newURL url (pattern rule) then
        (if allow rule then False else rulesLoop newURL url rest True)
      else rulesLoop newURL url rest isBlocked)"

definition urlMatchesSiteRules ::
  "(string \<Rightarrow> URL option) \<Rightarrow> string \<Rightarrow> ('m, 'c) BlockedSite \<Rightarrow> bool" where
  "urlMatchesSiteRules newURL url site =
     (if \<not> enabled site then False else rulesLoop newURL url (rules site) False)"

section \<open>Module state and the platform\<close>

text \<open>
  Times are milliseconds since the epoch and durations are minutes, both integers. Each
  operation takes the reading of \<open>Date.now()\<close> as \<open>now\<close> and runs to its end without
  another handler in between.
\<close>

record UnlockState =
  siteId :: string
  expiresAt :: int

record Tab =
  id_tab :: "int option"
  url_tab :: "string option"

text \<open>
  \<open>cachedSites\<close> and \<open>unlockedSites\<close> are the two variables of the webRequest module.
  \<open>storedSites\<close> is the entry of \<open>browser.storage.local\<close> under the key of the blocked
  sites (\<open>None\<close>: no entry), \<open>alarms\<close> the pending alarms of \<open>browser.alarms\<close> by name
  with their time, \<open>tabs\<close> the answer of \<open>browser.tabs.query({})\<close>.
\<close>

record ('m, 'c) state =
  cachedSites :: "('m, 'c) BlockedSite list"
  unlockedSites :: "string \<rightharpoonup> UnlockState"
  storedSites :: "('m, 'c) BlockedSite list option"
  alarms :: "string \<rightharpoonup> int"
  tabs :: "Tab list"

text \<open>
  What \<open>isInternalUrl\<close> needs of its surroundings: the values of \<open>getExtensionScheme()\<close>
  and \<open>getBrowserScheme()\<close>, which come from tables of constants outside these files, and
  the constant \<open>ALARM_PREFIX\<close>.
\<close>

record platform =
  extensionScheme :: string
  browserScheme :: string
  ALARM_PREFIX :: string

definition isInternalUrl :: "platform \<Rightarrow> string \<Rightarrow> bool" where
  "isInternalUrl pf url =
     (if url = [] then False
      else if startsWith url (extensionScheme pf) then True
      else if startsWith url (browserScheme pf) then True
      else if startsWith url ''about:'' then True
      else False)"

definition getBlockedSites :: "('m, 'c) state \<Rightarrow> ('m, 'c) BlockedSite list" where
  "getBlockedSites st = (case storedSites st of None \<Rightarrow> [] | Some sites \<Rightarrow> sites)"

definition findMatchingBlockedSite ::
  "(string \<Rightarrow> URL option) \<Rightarrow> string \<Rightarrow> ('m, 'c) state \<Rightarrow> ('m, 'c) BlockedSite option" where
  "findMatchingBlockedSite newURL url st =
     find (\<lambda>site. urlMatchesSiteRules newURL url site) (getBlockedSites st)"

definition refreshCache :: "('m, 'c) state \<Rightarrow> ('m, 'c) state" where
  "refreshCache st = st\<lparr>cachedSites := getBlockedSites st\<rparr>"

section \<open>The webRequest backend\<close>

text \<open>The loop of \<open>shouldBlockUrl\<close> over the cached sites that are left.\<close>

fun shouldBlockLoop ::
  "(string \<Rightarrow> URL option) \<Rightarrow> (string \<rightharpoonup> UnlockState) \<Rightarrow> int \<Rightarrow> string \<Rightarrow>
   ('m, 'c) BlockedSite list \<Rightarrow> bool \<times> ('m, 'c) BlockedSite option" where
  "shouldBlockLoop newURL unl now url [] = (False, None)"
| "shouldBlockLoop newURL unl now url (site # rest) =
     (if \<not> enabled site then shouldBlockLoop newURL unl now url rest
      else if (case unl (id_site site) of None \<Rightarrow> False
               | Some unlockState \<Rightarrow> expiresAt unlockState > now)
           then shouldBlockLoop newURL unl now url rest
      else if urlMatchesSiteRules newURL url site then (True, Some site)
      else shouldBlockLoop newURL unl now url rest)"

definition shouldBlockUrl ::
  "(string \<Rightarrow> URL option) \<Rightarrow> int \<Rightarrow> string \<Rightarrow> ('m, 'c) state \<Rightarrow>
   bool \<times> ('m, 'c) BlockedSite option" where
  "shouldBlockUrl newURL now url st =
     shouldBlockLoop newURL (unlockedSites st) now url (cachedSites st)"

definition grantAccess ::
  "platform \<Rightarrow> string \<Rightarrow> int option \<Rightarrow> int \<Rightarrow> ('m, 'c) state \<Rightarrow> int \<times> ('m, 'c) state" where
  "grantAccess pf sid durationMinutes now st =
     (let durationMs = (case durationMinutes of None \<Rightarrow> 60 | Some d \<Rightarrow> d) * 60 * 1000;
          expires = now + durationMs
      in (expires,
          st\<lparr>unlockedSites := (unlockedSites st)(sid \<mapsto> \<lparr>siteId = sid, expiresAt = expires\<rparr>),
             alarms := (alarms st)(ALARM_PREFIX pf @ sid \<mapsto> expires)\<rparr>))"

text \<open>The loop of \<open>findTabsOnBlockedSite\<close> over the tabs, collecting \<open>matchingTabIds\<close>.\<close>

fun tabsLoop ::
  "platform \<Rightarrow> (string \<Rightarrow> URL option) \<Rightarrow> ('m, 'c) BlockedSite \<Rightarrow> Tab list \<Rightarrow> int list \<Rightarrow> int list" where
  "tabsLoop pf newURL site [] matchingTabIds = matchingTabIds"
| "tabsLoop pf newURL site (tab # rest) matchingTabIds =
     (case (id_tab tab, url_tab tab) of
        (Some i, Some u) \<Rightarrow>
          (if i = 0 \<or> u = [] then tabsLoop pf newURL site rest matchingTabIds
           else if isInternalUrl pf u then tabsLoop pf newURL site rest matchingTabIds
           else if urlMatchesSiteRules newURL u site
                then tabsLoop pf newURL site rest (matchingTabIds @ [i])
           else tabsLoop pf newURL site rest matchingTabIds)
      | _ \<Rightarrow> tabsLoop pf newURL site rest matchingTabIds)"

definition findTabsOnBlockedSite ::
  "platform \<Rightarrow> (string \<Rightarrow> URL option) \<Rightarrow> string \<Rightarrow> ('m, 'c) state \<Rightarrow> int list" where
  "findTabsOnBlockedSite pf newURL sid st =
     (case find (\<lambda>s. id_site s = sid) (cachedSites st) of
        None \<Rightarrow> []
      | Some site \<Rightarrow> tabsLoop pf newURL site (tabs st) [])"

definition revokeAccess ::
  "platform \<Rightarrow> (string \<Rightarrow> URL option) \<Rightarrow> string \<Rightarrow> ('m, 'c) state \<Rightarrow> int list \<times> ('m, 'c) state" where
  "revokeAccess pf newURL sid st =
     (let st1 = st\<lparr>unlockedSites := (unlockedSites st)(sid := None)\<rparr>;
          st2 = st1\<lparr>alarms := (alarms st1)(ALARM_PREFIX pf @ sid := None)\<rparr>;
          tabsToRedirect = findTabsOnBlockedSite pf newURL sid st2
      in (tabsToRedirect, st2))"

definition isSiteUnlocked :: "string \<Rightarrow> int \<Rightarrow> ('m, 'c) state \<Rightarrow> bool \<times> ('m, 'c) state" where
  "isSiteUnlocked sid now st =
     (case unlockedSites st sid of
        None \<Rightarrow> (False, st)
      | Some s \<Rightarrow>
          if expiresAt s \<le> now
          then (False, st\<lparr>unlockedSites := (unlockedSites st)(sid := None)\<rparr>)
          else (True, st))"

definition getUnlockState ::
  "string \<Rightarrow> int \<Rightarrow> ('m, 'c) state \<Rightarrow> UnlockState option \<times> ('m, 'c) state" where
  "getUnlockState sid now st =
     (case unlockedSites st sid of
        None \<Rightarrow> (None, st)
      | Some s \<Rightarrow>
          if expiresAt s \<le> now
          then (None, st\<lparr>unlockedSites := (unlockedSites st)(sid := None)\<rparr>)
          else (Some s, st))"

definition handleRelockAlarm ::
  "platform \<Rightarrow> (string \<Rightarrow> URL option) \<Rightarrow> string \<Rightarrow> ('m, 'c) state \<Rightarrow>
   (string \<times> int list) option \<times> ('m, 'c) state" where
  "handleRelockAlarm pf newURL alarmName st =
     (if \<not> startsWith alarmName (ALARM_PREFIX pf) then (None, st)
      else
        (let sid = drop (length (ALARM_PREFIX pf)) alarmName;
             (tabsToRedirect, st') = revokeAccess pf newURL sid st
         in (Some (sid, tabsToRedirect), st')))"

section \<open>The navigation check of the background script\<close>

text \<open>
  \<open>checkAndBlockUrl\<close> with the webRequest backend behind \<open>isSiteUnlocked\<close>: the site
  whose blocked page the tab is sent to, if any, and the state afterwards.
\<close>

definition checkAndBlockUrl ::
  "platform \<Rightarrow> (string \<Rightarrow> URL option) \<Rightarrow> int \<Rightarrow> string \<Rightarrow> ('m, 'c) state \<Rightarrow>
   ('m, 'c) BlockedSite option \<times> ('m, 'c) state" where
  "checkAndBlockUrl pf newURL now url st =
     (if isInternalUrl pf url then (None, st)
      else
        (case findMatchingBlockedSite newURL url st of
           None \<Rightarrow> (None, st)
         | Some site \<Rightarrow>
             (let (unlocked, st') = isSiteUnlocked (id_site site) now st
              in if unlocked then (None, st') else (Some site, st'))))"

text \<open>
  The decision of the navigation pipeline in the words of the specification: the first
  site that the rule evaluator accepts is looked up, and the navigation is blocked when
  there is one and the unlock ledger does not hold it unlocked.
\<close>

definition navigationPipeline ::
  "(string \<Rightarrow> URL option) \<Rightarrow> int \<Rightarrow> string \<Rightarrow> ('m, 'c) state \<Rightarrow> bool" where
  "navigationPipeline newURL now url st =
     (case findMatchingBlockedSite newURL url st of
        None \<Rightarrow> False
      | Some site \<Rightarrow> \<not> fst (isSiteUnlocked (id_site site) now st))"

section \<open>Exceptions on the way to revokeAccess\<close>

text \<open>
  The same code once more with exceptions as values, from the one place that throws (the
  parser inside \<open>urlMatchesPattern\<close>) up to \<open>revokeAccess\<close>: \<open>Inl\<close> is an exception
  that leaves the function, \<open>Inr\<close> its value.
\<close>

text \<open>
  \<open>urlMatchesPattern\<close> as its caller sees it: the value it returns, or the exception
  that leaves it. The \<open>catch\<close> clause lets none leave.
\<close>

definition urlMatchesPattern_outcome ::
  "(string \<Rightarrow> URL option) \<Rightarrow> string \<Rightarrow> string \<Rightarrow> js_error + bool" where
  "urlMatchesPattern_outcome newURL url pat =
     (case urlMatchesPattern_try newURL url pat of Inl _ \<Rightarrow> Inr False | Inr b \<Rightarrow> Inr b)"

text \<open>
  The functions between the matcher and \<open>revokeAccess\<close> have no \<open>try\<close> of their own:
  an exception of a call ends them and goes on to their caller.
\<close>

fun rulesLoop_outcome ::
  "(string \<Rightarrow> URL option) \<Rightarrow> string \<Rightarrow> PatternRule list \<Rightarrow> bool \<Rightarrow> js_error + bool" where
  "rulesLoop_outcome newURL url [] isBlocked = Inr isBlocked"
| "rulesLoop_outcome newURL url (rule # rest) isBlocked =
     (case urlMatchesPattern_outcome newURL url (pattern rule) of
        Inl e \<Rightarrow> Inl e
      | Inr matches \<Rightarrow>
          if matches then
            (if allow rule then Inr False else rulesLoop_outcome newURL url rest True)
          else rulesLoop_outcome newURL url rest isBlocked)"

definition urlMatchesSiteRules_outcome ::
  "(string \<Rightarrow> URL option) \<Rightarrow> string \<Rightarrow> ('m, 'c) BlockedSite \<Rightarrow> js_error + bool" where
  "urlMatchesSiteRules_outcome newURL url site =
     (if \<not> enabled site then Inr False else rulesLoop_outcome newURL url (rules site) False)"

fun tabsLoop_outcome ::
  "platform \<Rightarrow> (string \<Rightarrow> URL option) \<Rightarrow> ('m, 'c) BlockedSite \<Rightarrow> Tab list \<Rightarrow> int list \<Rightarrow>
   js_error + int list" where
  "tabsLoop_outcome pf newURL site [] matchingTabIds = Inr matchingTabIds"
| "tabsLoop_outcome pf newURL site (tab # rest) matchingTabIds =
     (case (id_tab tab, url_tab tab) of
        (Some i, Some u) \<Rightarrow>
          (if i = 0 \<or> u = [] then tabsLoop_outcome pf newURL site rest matchingTabIds
           else if isInternalUrl pf u then tabsLoop_outcome pf newURL site rest matchingTabIds
           else
             (case urlMatchesSiteRules_outcome newURL u site of
                Inl e \<Rightarrow> Inl e
              | Inr matches \<Rightarrow>
                  if matches then tabsLoop_outcome pf newURL site rest (matchingTabIds @ [i])
                  else tabsLoop_outcome pf newURL site rest matchingTabIds))
      | _ \<Rightarrow> tabsLoop_outcome pf newURL site rest matchingTabIds)"

definition findTabsOnBlockedSite_outcome ::
  "platform \<Rightarrow> (string \<Rightarrow> URL option) \<Rightarrow> string \<Rightarrow> ('m, 'c) state \<Rightarrow> js_error + int list" where
  "findTabsOnBlockedSite_outcome pf newURL sid st =
     (case find (\<lambda>s. id_site s = sid) (cachedSites st) of
        None \<Rightarrow> Inr []
      | Some site \<Rightarrow> tabsLoop_outcome pf newURL site (tabs st) [])"

definition revokeAccess_outcome ::
  "platform \<Rightarrow> (string \<Rightarrow> URL option) \<Rightarrow> string \<Rightarrow> ('m, 'c) state \<Rightarrow>
   js_error + (int list \<times> ('m, 'c) state)" where
  "revokeAccess_outcome pf newURL sid st =
     (let st1 = st\<lparr>unlockedSites := (unlockedSites st)(sid := None)\<rparr>;
          st2 = st1\<lparr>alarms := (alarms st1)(ALARM_PREFIX pf @ sid := None)\<rparr>
      in case findTabsOnBlockedSite_outcome pf newURL sid st2 of
           Inl e \<Rightarrow> Inl e
         | Inr tabsToRedirect \<Rightarrow> Inr (tabsToRedirect, st2))"

section \<open>Data of the examples\<close>

text \<open>
  What the platform's parser answers on the addresses used in the examples below; a
  string outside the table stands for an address the parser rejects.
\<close>

definition exampleURL :: "string \<Rightarrow> URL option" where
  "exampleURL = map_of
     [(''https://x.com/messages/123'',
         \<lparr>protocol = ''https:'', username = [], password = [], hostname = ''x.com'',
          port = [], pathname = ''/messages/123'', search = [], hash = []\<rparr>),
      (''https://x.com/home'',
         \<lparr>protocol = ''https:'', username = [], password = [], hostname = ''x.com'',
          port = [], pathname = ''/home'', search = [], hash = []\<rparr>),
      (''https://www.reddit.com/r/test'',
         \<lparr>protocol = ''https:'', username = [], password = [], hostname = ''www.reddit.com'',
          port = [], pathname = ''/r/test'', search = [], hash = []\<rparr>),
      (''http://user:pw@www.reddit.com:8080/r/test?q=1#top'',
         \<lparr>protocol = ''http:'', username = ''user'', password = ''pw'',
          hostname = ''www.reddit.com'', port = ''8080'', pathname = ''/r/test'',
          search = ''?q=1'', hash = ''#top''\<rparr>)]"

definition exampleSite :: "string \<Rightarrow> PatternRule list \<Rightarrow> (unit, unit) BlockedSite" where
  "exampleSite i rs =
     \<lparr>id_site = i, name = i, rules = rs, unlockMethod = (), challengeSettings = (),
      autoRelockAfter = None, enabled = True, createdAt = 0\<rparr>"

definition examplePlatform :: platform where
  "examplePlatform =
     \<lparr>extensionScheme = ''moz-extension://'', browserScheme = ''about:'',
      ALARM_PREFIX = ''relock-''\<rparr>"

text \<open>A state whose cache is fresh: the cached sites are the stored ones.\<close>

definition exampleState ::
  "(unit, unit) BlockedSite list \<Rightarrow> (string \<rightharpoonup> UnlockState) \<Rightarrow> Tab list \<Rightarrow> (unit, unit) state" where
  "exampleState sites unl tbs =
     \<lparr>cachedSites = sites, unlockedSites = unl, storedSites = Some sites,
      alarms = Map.empty, tabs = tbs\<rparr>"

text \<open>
  Two sites that both accept the addresses of Reddit, the first one unlocked until
  3600000.
\<close>

definition overlappingState :: "(unit, unit) state" where
  "overlappingState =
     exampleState
       [exampleSite ''s1'' [\<lparr>pattern = ''reddit.com'', allow = False\<rparr>],
        exampleSite ''s2'' [\<lparr>pattern = ''*.reddit.com'', allow = False\<rparr>]]
       [''s1'' \<mapsto> \<lparr>siteId = ''s1'', expiresAt = 3600000\<rparr>] []"

text \<open>
  Site \<open>s1\<close> is granted one minute at time 0 (until 60000) and then, at 30000, sixty
  minutes (until 3630000).
\<close>

definition regrantedState :: "(unit, unit) state" where
  "regrantedState =
     snd (grantAccess examplePlatform ''s1'' (Some 60) 30000
       (snd (grantAccess examplePlatform ''s1'' (Some 1) 0 (exampleState [] Map.empty []))))"

text \<open>One blocked site, never unlocked, and one open tab on it.\<close>

definition openTabState :: "(unit, unit) state" where
  "openTabState =
     exampleState [exampleSite ''s1'' [\<lparr>pattern = ''reddit.com'', allow = False\<rparr>]] Map.empty
       [\<lparr>id_tab = Some 7, url_tab = Some ''https://www.reddit.com/r/test''\<rparr>]"

text \<open>
  The same site with eight tabs: two on Reddit, one with the id 0, one without an id, one
  without an address, one whose address the parser rejects, one on another site and one
  on an internal page.
\<close>

definition manyTabsState :: "(unit, unit) state" where
  "manyTabsState =
     exampleState [exampleSite ''s1'' [\<lparr>pattern = ''reddit.com'', allow = False\<rparr>]] Map.empty
       [\<lparr>id_tab = Some 7, url_tab = Some ''https://www.reddit.com/r/test''\<rparr>,
        \<lparr>id_tab = Some 0, url_tab = Some ''https://www.reddit.com/r/test''\<rparr>,
        \<lparr>id_tab = None, url_tab = Some ''https://www.reddit.com/r/test''\<rparr>,
        \<lparr>id_tab = Some 8, url_tab = None\<rparr>,
        \<lparr>id_tab = Some 9, url_tab = Some ''not a url''\<rparr>,
        \<lparr>id_tab = Some 10, url_tab = Some ''https://x.com/home''\<rparr>,
        \<lparr>id_tab = Some 11, url_tab = Some ''about:blank''\<rparr>,
        \<lparr>id_tab = Some 12, url_tab = Some ''http://user:pw@www.reddit.com:8080/r/test?q=1#top''\<rparr>]"

section \<open>Facts about the string operations\<close>

lemma toLowerChar_idem: "toLowerChar (toLowerChar c) = toLowerChar c"
  by (simp add: toLowerChar_def Let_def)

lemma toLowerCase_idem: "toLowerCase (toLowerCase s) = toLowerCase s"
  by (simp add: toLowerCase_def toLowerChar_idem)

lemma dropWhile_hd_id: "xs = [] \<or> \<not> P (hd xs) \<Longrightarrow> dropWhile P xs = xs"
  by (cases xs) auto

lemma trim_id:
  "s = [] \<or> (\<not> isWhiteSpace (hd s) \<and> \<not> isWhiteSpace (last s)) \<Longrightarrow> trim s = s"
  unfolding trim_def
  by (cases "s = []") (simp_all add: dropWhile_hd_id hd_rev)

lemma star_dot_chars:
  "toLowerChar (CHR ''*'') = CHR ''*''" "toLowerChar (CHR ''.'') = CHR ''.''"
  "\<not> isWhiteSpace (CHR ''*'')" "\<not> isWhiteSpace (CHR ''.'')"
  by (simp_all add: toLowerChar_def isWhiteSpace_def)

lemma normalizePattern_star_dot:
  assumes "toLowerCase d = d" and "d = [] \<or> \<not> isWhiteSpace (last d)"
  shows "normalizePattern (''*.'' @ d) = ''*.'' @ d"
proof -
  have low: "toLowerCase (''*.'' @ d) = ''*.'' @ d"
    using assms(1) by (simp add: toLowerCase_def star_dot_chars)
  have tr: "trim (''*.'' @ d) = ''*.'' @ d"
    using assms(2) by (intro trim_id) (auto simp: star_dot_chars)
  show ?thesis
    using low tr by (simp add: normalizePattern_def stripScheme_def stripWww_def startsWith_def)
qed

lemma urlMatchesPattern_parsed:
  "newURL url = Some urlObj \<Longrightarrow>
   urlMatchesPattern newURL url pat =
   urlMatchesPattern
     (\<lambda>_. Some \<lparr>protocol = [], username = [], password = [], hostname = hostname urlObj,
                 port = [], pathname = pathname urlObj, search = [], hash = []\<rparr>) [] pat"
  by (simp add: urlMatchesPattern_def urlMatchesPattern_try_def)

lemma lower_fixed_iff: "(toLowerCase s = s) = (\<forall>c\<in>set s. toLowerChar c = c)"
  unfolding toLowerCase_def by (induction s) auto

lemma set_trim: "set (trim s) \<subseteq> set s"
proof
  fix c assume "c \<in> set (trim s)"
  then have "c \<in> set (dropWhile isWhiteSpace (rev (dropWhile isWhiteSpace s)))"
    by (simp add: trim_def)
  then have "c \<in> set (rev (dropWhile isWhiteSpace s))" by (rule set_dropWhileD)
  then have "c \<in> set (dropWhile isWhiteSpace s)" by simp
  then show "c \<in> set s" by (rule set_dropWhileD)
qed

lemma set_stripScheme: "set (stripScheme s) \<subseteq> set s"
  unfolding stripScheme_def by (auto dest: in_set_dropD)

lemma set_stripWww: "set (stripWww s) \<subseteq> set s"
  unfolding stripWww_def by (auto dest: in_set_dropD)

lemma normalizePattern_lower: "\<forall>c\<in>set (normalizePattern p). toLowerChar c = c"
proof -
  have "set (normalizePattern p) \<subseteq> set (toLowerCase p)"
    unfolding normalizePattern_def
    using set_stripWww set_stripScheme set_trim by blast
  moreover have "\<forall>c\<in>set (toLowerCase p). toLowerChar c = c"
    by (auto simp: toLowerCase_def toLowerChar_idem)
  ultimately show ?thesis by blast
qed

lemma pathPattern_lower:
  "toLowerCase (dropWhile P (normalizePattern p)) = dropWhile P (normalizePattern p)"
  unfolding lower_fixed_iff using normalizePattern_lower set_dropWhileD by fast

section \<open>The pattern matcher: claims\<close>

text \<open>
  C3. Let \<open>d\<close> be a lower-case domain string: \<open>toLowerCase\<close> leaves it as it is, it has
  no slash and no white space at its end (the matcher trims the pattern, so white space
  there would not belong to the domain). For every address that parses, the host-only
  pattern \<open>*.\<close> followed by \<open>d\<close> matches exactly when the lower-cased host name without one
  leading \<open>www.\<close> is \<open>d\<close> or ends with a dot followed by \<open>d\<close>.
\<close>

theorem wildcard_domain_match:
  assumes "newURL url = Some urlObj"
    and "toLowerCase d = d"
    and "d = [] \<or> \<not> isWhiteSpace (last d)"
    and "\<not> includesChar d (CHR ''/'')"
  shows "urlMatchesPattern newURL url (''*.'' @ d) =
         (let h' = stripWww (toLowerCase (hostname urlObj))
          in h' = d \<or> endsWith h' (''.'' @ d))"
proof -
  have np: "normalizePattern (''*.'' @ d) = ''*.'' @ d"
    using assms(2,3) by (rule normalizePattern_star_dot)
  have noslash: "\<not> includesChar (''*.'' @ d) (CHR ''/'')"
    using assms(4) by (simp add: includesChar_def)
  show ?thesis
    using np noslash
    by (simp add: urlMatchesPattern_def urlMatchesPattern_try_def assms(1)
        startsWith_def toLowerCase_idem Let_def)
qed

theorem wildcard_domain_match_witness:
  "toLowerCase ''reddit.com'' = ''reddit.com'' \<and>
   \<not> isWhiteSpace (last ''reddit.com'') \<and>
   \<not> includesChar ''reddit.com'' (CHR ''/'') \<and>
   urlMatchesPattern exampleURL ''https://www.reddit.com/r/test'' ''*.reddit.com'' = True \<and>
   urlMatchesPattern exampleURL ''https://x.com/home'' ''*.reddit.com'' = False"
proof -
  let ?r = "\<lparr>protocol = ''https:'', username = [], password = [], hostname = ''www.reddit.com'',
          port = [], pathname = ''/r/test'', search = [], hash = []\<rparr>"
  let ?x = "\<lparr>protocol = ''https:'', username = [], password = [], hostname = ''x.com'',
          port = [], pathname = ''/home'', search = [], hash = []\<rparr>"
  have r: "exampleURL ''https://www.reddit.com/r/test'' = Some ?r"
    by (simp add: exampleURL_def)
  have x: "exampleURL ''https://x.com/home'' = Some ?x"
    by (simp add: exampleURL_def)
  have low: "toLowerCase ''reddit.com'' = ''reddit.com''" by code_simp
  have ws: "''reddit.com'' = [] \<or> \<not> isWhiteSpace (last ''reddit.com'')" by code_simp
  have sl: "\<not> includesChar ''reddit.com'' (CHR ''/'')" by code_simp
  have hr: "(let h' = stripWww (toLowerCase (hostname ?r))
          in h' = ''reddit.com'' \<or> endsWith h' (''.'' @ ''reddit.com'')) = True" by code_simp
  have hx: "(let h' = stripWww (toLowerCase (hostname ?x))
          in h' = ''reddit.com'' \<or> endsWith h' (''.'' @ ''reddit.com'')) = False" by code_simp
  have a: "urlMatchesPattern exampleURL ''https://www.reddit.com/r/test'' (''*.'' @ ''reddit.com'') = True"
    using wildcard_domain_match [of exampleURL "''https://www.reddit.com/r/test''" ?r "''reddit.com''", OF r low ws sl] hr
    by (simp only:)
  have b: "urlMatchesPattern exampleURL ''https://x.com/home'' (''*.'' @ ''reddit.com'') = False"
    using wildcard_domain_match [of exampleURL "''https://x.com/home''" ?x "''reddit.com''", OF x low ws sl] hx
    by (simp only:)
  show ?thesis using a b low ws sl by simp
qed

text \<open>
  C9. An address that the parser rejects matches no pattern: the \<open>try\<close> block ends in the
  parser's exception, and \<open>urlMatchesPattern\<close> answers \<open>false\<close> instead of passing it on.
\<close>

theorem urlMatchesPattern_unparsable:
  "newURL url = None \<Longrightarrow>
   urlMatchesPattern_try newURL url pat = Inl TypeError \<and>
   urlMatchesPattern newURL url pat = False"
  by (simp add: urlMatchesPattern_def urlMatchesPattern_try_def)

theorem urlMatchesPattern_unparsable_witness:
  "exampleURL ''not a url'' = None \<and>
   urlMatchesPattern_try exampleURL ''not a url'' ''*.reddit.com'' = Inl TypeError \<and>
   urlMatchesPattern exampleURL ''not a url'' ''*.reddit.com'' = False"
proof -
  have h: "exampleURL ''not a url'' = None" by (simp add: exampleURL_def)
  show ?thesis
    using h urlMatchesPattern_unparsable [of exampleURL "''not a url''" "''*.reddit.com''"]
    by simp
qed

text \<open>
  C10. Two addresses that parse to the same host name and the same path get the same
  answer for every pattern, whatever their scheme, port, query, fragment and credentials
  are: the matcher reads \<open>hostname\<close> and \<open>pathname\<close> only.
\<close>

theorem urlMatchesPattern_host_path_only:
  "newURL url1 = Some urlObj1 \<Longrightarrow> newURL url2 = Some urlObj2 \<Longrightarrow>
   hostname urlObj1 = hostname urlObj2 \<Longrightarrow> pathname urlObj1 = pathname urlObj2 \<Longrightarrow>
   urlMatchesPattern newURL url1 pat = urlMatchesPattern newURL url2 pat"
  by (simp add: urlMatchesPattern_def urlMatchesPattern_try_def)

theorem urlMatchesPattern_host_path_only_witness:
  "exampleURL ''https://www.reddit.com/r/test'' \<noteq>
     exampleURL ''http://user:pw@www.reddit.com:8080/r/test?q=1#top'' \<and>
   urlMatchesPattern exampleURL ''https://www.reddit.com/r/test'' ''reddit.com/r'' =
     urlMatchesPattern exampleURL ''http://user:pw@www.reddit.com:8080/r/test?q=1#top''
       ''reddit.com/r''"
proof -
  let ?a = "\<lparr>protocol = ''https:'', username = [], password = [],
          hostname = ''www.reddit.com'', port = [], pathname = ''/r/test'',
          search = [], hash = []\<rparr>"
  let ?b = "\<lparr>protocol = ''http:'', username = ''user'', password = ''pw'',
          hostname = ''www.reddit.com'', port = ''8080'', pathname = ''/r/test'',
          search = ''?q=1'', hash = ''#top''\<rparr>"
  have a: "exampleURL ''https://www.reddit.com/r/test'' = Some ?a"
    by (simp add: exampleURL_def)
  have b: "exampleURL ''http://user:pw@www.reddit.com:8080/r/test?q=1#top'' = Some ?b"
    by (simp add: exampleURL_def)
  show ?thesis
    using urlMatchesPattern_host_path_only [of exampleURL "''https://www.reddit.com/r/test''" ?a
        "''http://user:pw@www.reddit.com:8080/r/test?q=1#top''" ?b "''reddit.com/r''"] a b
    by simp
qed

text \<open>
  C4. Take a pattern that, once normalised, has a slash, and whose path part (from the
  first slash on) has no star, and an address that parses and whose host matches the host
  part. Then the pattern matches exactly when the lower-cased path of the address and the
  path of the pattern are equal once a single trailing slash is taken from each, or the
  path of the address goes on below the pattern's path (that path, a slash, and more).
  So \<open>x.com/messages\<close> matches \<open>https://x.com/messages/123\<close> and not
  \<open>https://x.com/home\<close>, for every parser that reads these addresses as they are written.
\<close>

theorem path_pattern_match:
  "(newURL url = Some urlObj \<and>
    includesChar (normalizePattern pat) (CHR ''/'') \<and>
    \<not> includesChar (dropWhile (\<lambda>c. c \<noteq> CHR ''/'') (normalizePattern pat)) (CHR ''*'') \<and>
    hostMatches (toLowerCase (hostname urlObj))
      (takeWhile (\<lambda>c. c \<noteq> CHR ''/'') (normalizePattern pat)) \<longrightarrow>
    urlMatchesPattern newURL url pat =
      (let pathPattern = dropWhile (\<lambda>c. c \<noteq> CHR ''/'') (normalizePattern pat);
           path = toLowerCase (pathname urlObj)
       in stripTrailingSlash path = stripTrailingSlash pathPattern \<or>
          startsWith (stripTrailingSlash path) (stripTrailingSlash pathPattern @ ''/''))) \<and>
   (newURL ''https://x.com/messages/123'' = Some urlObj1 \<and> hostname urlObj1 = ''x.com'' \<and>
    pathname urlObj1 = ''/messages/123'' \<longrightarrow>
    urlMatchesPattern newURL ''https://x.com/messages/123'' ''x.com/messages'' = True) \<and>
   (newURL ''https://x.com/home'' = Some urlObj2 \<and> hostname urlObj2 = ''x.com'' \<and>
    pathname urlObj2 = ''/home'' \<longrightarrow>
    urlMatchesPattern newURL ''https://x.com/home'' ''x.com/messages'' = False)"
proof (intro conjI impI)
  assume a: "newURL url = Some urlObj \<and>
    includesChar (normalizePattern pat) (CHR ''/'') \<and>
    \<not> includesChar (dropWhile (\<lambda>c. c \<noteq> CHR ''/'') (normalizePattern pat)) (CHR ''*'') \<and>
    hostMatches (toLowerCase (hostname urlObj))
      (takeWhile (\<lambda>c. c \<noteq> CHR ''/'') (normalizePattern pat))"
  then show "urlMatchesPattern newURL url pat =
      (let pathPattern = dropWhile (\<lambda>c. c \<noteq> CHR ''/'') (normalizePattern pat);
           path = toLowerCase (pathname urlObj)
       in stripTrailingSlash path = stripTrailingSlash pathPattern \<or>
          startsWith (stripTrailingSlash path) (stripTrailingSlash pathPattern @ ''/''))"
    by (simp add: urlMatchesPattern_def urlMatchesPattern_try_def Let_def
        pathPattern_lower toLowerCase_idem)
next
  assume a: "newURL ''https://x.com/messages/123'' = Some urlObj1 \<and> hostname urlObj1 = ''x.com'' \<and>
    pathname urlObj1 = ''/messages/123''"
  have "urlMatchesPattern
     (\<lambda>_. Some \<lparr>protocol = [], username = [], password = [], hostname = ''x.com'',
                 port = [], pathname = ''/messages/123'', search = [], hash = []\<rparr>) []
     ''x.com/messages'' = True"
    by code_simp
  with a show "urlMatchesPattern newURL ''https://x.com/messages/123'' ''x.com/messages'' = True"
    using urlMatchesPattern_parsed [of newURL "''https://x.com/messages/123''" urlObj1]
    by simp
next
  assume a: "newURL ''https://x.com/home'' = Some urlObj2 \<and> hostname urlObj2 = ''x.com'' \<and>
    pathname urlObj2 = ''/home''"
  have "urlMatchesPattern
     (\<lambda>_. Some \<lparr>protocol = [], username = [], password = [], hostname = ''x.com'',
                 port = [], pathname = ''/home'', search = [], hash = []\<rparr>) []
     ''x.com/messages'' = False"
    by code_simp
  with a show "urlMatchesPattern newURL ''https://x.com/home'' ''x.com/messages'' = False"
    using urlMatchesPattern_parsed [of newURL "''https://x.com/home''" urlObj2]
    by simp
qed

theorem path_pattern_match_witness:
  "includesChar (normalizePattern ''x.com/messages'') (CHR ''/'') \<and>
   \<not> includesChar (dropWhile (\<lambda>c. c \<noteq> CHR ''/'') (normalizePattern ''x.com/messages'')) (CHR ''*'') \<and>
   hostMatches (toLowerCase ''x.com'')
      (takeWhile (\<lambda>c. c \<noteq> CHR ''/'') (normalizePattern ''x.com/messages'')) \<and>
   urlMatchesPattern exampleURL ''https://x.com/messages/123'' ''x.com/messages'' = True \<and>
   urlMatchesPattern exampleURL ''https://x.com/home'' ''x.com/messages'' = False"
proof -
  let ?m = "\<lparr>protocol = ''https:'', username = [], password = [], hostname = ''x.com'',
          port = [], pathname = ''/messages/123'', search = [], hash = []\<rparr>"
  let ?h = "\<lparr>protocol = ''https:'', username = [], password = [], hostname = ''x.com'',
          port = [], pathname = ''/home'', search = [], hash = []\<rparr>"
  have m: "exampleURL ''https://x.com/messages/123'' = Some ?m"
    by (simp add: exampleURL_def)
  have h: "exampleURL ''https://x.com/home'' = Some ?h"
    by (simp add: exampleURL_def)
  have p1: "includesChar (normalizePattern ''x.com/messages'') (CHR ''/'')" by code_simp
  have p2: "\<not> includesChar (dropWhile (\<lambda>c. c \<noteq> CHR ''/'') (normalizePattern ''x.com/messages'')) (CHR ''*'')"
    by code_simp
  have p3: "hostMatches (toLowerCase ''x.com'')
      (takeWhile (\<lambda>c. c \<noteq> CHR ''/'') (normalizePattern ''x.com/messages''))" by code_simp
  have rhs: "(let pathPattern = dropWhile (\<lambda>c. c \<noteq> CHR ''/'') (normalizePattern ''x.com/messages'');
           path = toLowerCase ''/messages/123''
       in stripTrailingSlash path = stripTrailingSlash pathPattern \<or>
          startsWith (stripTrailingSlash path) (stripTrailingSlash pathPattern @ ''/'')) = True"
    by code_simp
  show ?thesis
    using path_pattern_match [of exampleURL "''https://x.com/messages/123''" ?m
        "''x.com/messages''" ?m ?h] m h p1 p2 p3 rhs
    by simp
qed

section \<open>The rule evaluator: claims\<close>

lemma rulesLoop_allow_reached:
  "allow r \<Longrightarrow> urlMatchesPattern newURL url (pattern r) \<Longrightarrow>
   rulesLoop newURL url (pre @ r # post) isBlocked = False"
  by (induction pre arbitrary: isBlocked) simp_all

text \<open>
  C2. Once the loop reaches a rule that allows and matches, it answers \<open>false\<close> at that
  rule, whatever the flag is by then and whatever rules follow; so a site whose rule list
  has such a rule anywhere is not blocking the address. The list block, allow, block over
  one pattern that matches the address is an instance.
\<close>

theorem allow_rule_overrides:
  "(allow r \<and> urlMatchesPattern newURL url (pattern r) \<longrightarrow>
      rulesLoop newURL url (r # post) isBlocked = False) \<and>
   (rules site = pre @ r # post \<and> allow r \<and> urlMatchesPattern newURL url (pattern r) \<longrightarrow>
      urlMatchesSiteRules newURL url site = False) \<and>
   (rules site = [\<lparr>pattern = A, allow = False\<rparr>, \<lparr>pattern = A, allow = True\<rparr>,
                  \<lparr>pattern = A, allow = False\<rparr>] \<and>
    urlMatchesPattern newURL url A \<longrightarrow>
      urlMatchesSiteRules newURL url site = False)"
proof (intro conjI impI)
  assume "allow r \<and> urlMatchesPattern newURL url (pattern r)"
  then show "rulesLoop newURL url (r # post) isBlocked = False" by simp
next
  assume "rules site = pre @ r # post \<and> allow r \<and> urlMatchesPattern newURL url (pattern r)"
  then show "urlMatchesSiteRules newURL url site = False"
    by (simp add: urlMatchesSiteRules_def rulesLoop_allow_reached)
next
  assume "rules site = [\<lparr>pattern = A, allow = False\<rparr>, \<lparr>pattern = A, allow = True\<rparr>,
                  \<lparr>pattern = A, allow = False\<rparr>] \<and> urlMatchesPattern newURL url A"
  then show "urlMatchesSiteRules newURL url site = False"
    by (simp add: urlMatchesSiteRules_def)
qed

theorem allow_rule_overrides_witness:
  "urlMatchesPattern exampleURL ''https://www.reddit.com/r/test'' ''reddit.com'' \<and>
   rulesLoop exampleURL ''https://www.reddit.com/r/test''
     [\<lparr>pattern = ''reddit.com'', allow = True\<rparr>, \<lparr>pattern = ''reddit.com'', allow = False\<rparr>]
     True = False \<and>
   urlMatchesSiteRules exampleURL ''https://www.reddit.com/r/test''
     (exampleSite ''s1''
        [\<lparr>pattern = ''reddit.com'', allow = False\<rparr>, \<lparr>pattern = ''reddit.com'', allow = True\<rparr>,
         \<lparr>pattern = ''reddit.com'', allow = False\<rparr>]) = False"
proof -
  have m: "urlMatchesPattern exampleURL ''https://www.reddit.com/r/test'' ''reddit.com''"
    by code_simp
  show ?thesis
    using m allow_rule_overrides [of "\<lparr>pattern = ''reddit.com'', allow = True\<rparr>" exampleURL
        "''https://www.reddit.com/r/test''" "[\<lparr>pattern = ''reddit.com'', allow = False\<rparr>]" True
        "exampleSite ''s1''
        [\<lparr>pattern = ''reddit.com'', allow = False\<rparr>, \<lparr>pattern = ''reddit.com'', allow = True\<rparr>,
         \<lparr>pattern = ''reddit.com'', allow = False\<rparr>]"
        "[\<lparr>pattern = ''reddit.com'', allow = False\<rparr>]" "''reddit.com''"]
    by (simp add: exampleSite_def)
qed

lemma find_None_set: "(find P xs = None) = (\<forall>x\<in>set xs. \<not> P x)"
  by (induction xs) auto

lemma find_Some_first:
  "(find P xs = Some x) = (\<exists>pre post. xs = pre @ x # post \<and> P x \<and> (\<forall>y\<in>set pre. \<not> P y))"
proof (induction xs)
  case Nil
  then show ?case by simp
next
  case (Cons a xs)
  show ?case
  proof (cases "P a")
    case True
    have "(\<exists>pre post. a # xs = pre @ x # post \<and> P x \<and> (\<forall>y\<in>set pre. \<not> P y)) = (a = x)"
    proof
      assume "\<exists>pre post. a # xs = pre @ x # post \<and> P x \<and> (\<forall>y\<in>set pre. \<not> P y)"
      then obtain pre post where d: "a # xs = pre @ x # post" "\<forall>y\<in>set pre. \<not> P y" by blast
      with True show "a = x" by (cases pre) auto
    next
      assume "a = x"
      with True have "a # xs = [] @ x # xs \<and> P x \<and> (\<forall>y\<in>set []. \<not> P y)" by simp
      then show "\<exists>pre post. a # xs = pre @ x # post \<and> P x \<and> (\<forall>y\<in>set pre. \<not> P y)" by blast
    qed
    with True show ?thesis by simp
  next
    case False
    have "(\<exists>pre post. a # xs = pre @ x # post \<and> P x \<and> (\<forall>y\<in>set pre. \<not> P y)) =
          (\<exists>pre post. xs = pre @ x # post \<and> P x \<and> (\<forall>y\<in>set pre. \<not> P y))"
    proof
      assume "\<exists>pre post. a # xs = pre @ x # post \<and> P x \<and> (\<forall>y\<in>set pre. \<not> P y)"
      then obtain pre post where d: "a # xs = pre @ x # post" "P x" "\<forall>y\<in>set pre. \<not> P y" by blast
      with False obtain pre' where "pre = a # pre'" by (cases pre) auto
      with d have "xs = pre' @ x # post \<and> P x \<and> (\<forall>y\<in>set pre'. \<not> P y)" by simp
      then show "\<exists>pre post. xs = pre @ x # post \<and> P x \<and> (\<forall>y\<in>set pre. \<not> P y)" by blast
    next
      assume "\<exists>pre post. xs = pre @ x # post \<and> P x \<and> (\<forall>y\<in>set pre. \<not> P y)"
      then obtain pre post where d: "xs = pre @ x # post" "P x" "\<forall>y\<in>set pre. \<not> P y" by blast
      with False have "a # xs = (a # pre) @ x # post \<and> P x \<and> (\<forall>y\<in>set (a # pre). \<not> P y)" by simp
      then show "\<exists>pre post. a # xs = pre @ x # post \<and> P x \<and> (\<forall>y\<in>set pre. \<not> P y)" by blast
    qed
    with False Cons.IH show ?thesis by simp
  qed
qed

text \<open>
  C5. \<open>findMatchingBlockedSite\<close> answers \<open>null\<close> exactly when no stored site accepts the
  address, and a site exactly when that site accepts it and no site before it in the
  list does. Of two accepting sites the earlier one is the answer, whatever stands
  between and after them.
\<close>

theorem findMatchingBlockedSite_first:
  "(findMatchingBlockedSite newURL url st = None \<longleftrightarrow>
      (\<forall>s\<in>set (getBlockedSites st). \<not> urlMatchesSiteRules newURL url s)) \<and>
   (findMatchingBlockedSite newURL url st = Some site \<longleftrightarrow>
      (\<exists>pre post. getBlockedSites st = pre @ site # post \<and>
         urlMatchesSiteRules newURL url site \<and>
         (\<forall>s\<in>set pre. \<not> urlMatchesSiteRules newURL url s))) \<and>
   (getBlockedSites st = pre @ a # mid @ b # post \<and>
      (\<forall>s\<in>set pre. \<not> urlMatchesSiteRules newURL url s) \<and>
      urlMatchesSiteRules newURL url a \<and> urlMatchesSiteRules newURL url b \<longrightarrow>
      findMatchingBlockedSite newURL url st = Some a)"
  unfolding findMatchingBlockedSite_def
proof (intro conjI)
  show "(find (urlMatchesSiteRules newURL url) (getBlockedSites st) = None) =
        (\<forall>s\<in>set (getBlockedSites st). \<not> urlMatchesSiteRules newURL url s)"
    by (rule find_None_set)
  show "(find (urlMatchesSiteRules newURL url) (getBlockedSites st) = Some site) =
        (\<exists>pre post. getBlockedSites st = pre @ site # post \<and>
           urlMatchesSiteRules newURL url site \<and>
           (\<forall>s\<in>set pre. \<not> urlMatchesSiteRules newURL url s))"
    by (rule find_Some_first)
  show "getBlockedSites st = pre @ a # mid @ b # post \<and>
      (\<forall>s\<in>set pre. \<not> urlMatchesSiteRules newURL url s) \<and>
      urlMatchesSiteRules newURL url a \<and> urlMatchesSiteRules newURL url b \<longrightarrow>
      find (urlMatchesSiteRules newURL url) (getBlockedSites st) = Some a"
    unfolding find_Some_first by blast
qed

theorem findMatchingBlockedSite_first_witness:
  "urlMatchesSiteRules exampleURL ''https://www.reddit.com/r/test''
     (exampleSite ''s1'' [\<lparr>pattern = ''reddit.com'', allow = False\<rparr>]) \<and>
   urlMatchesSiteRules exampleURL ''https://www.reddit.com/r/test''
     (exampleSite ''s2'' [\<lparr>pattern = ''*.reddit.com'', allow = False\<rparr>]) \<and>
   findMatchingBlockedSite exampleURL ''https://www.reddit.com/r/test''
     (exampleState [exampleSite ''s1'' [\<lparr>pattern = ''reddit.com'', allow = False\<rparr>],
                    exampleSite ''s2'' [\<lparr>pattern = ''*.reddit.com'', allow = False\<rparr>]]
        Map.empty []) =
     Some (exampleSite ''s1'' [\<lparr>pattern = ''reddit.com'', allow = False\<rparr>])"
proof -
  let ?a = "exampleSite ''s1'' [\<lparr>pattern = ''reddit.com'', allow = False\<rparr>]"
  let ?b = "exampleSite ''s2'' [\<lparr>pattern = ''*.reddit.com'', allow = False\<rparr>]"
  have a: "urlMatchesSiteRules exampleURL ''https://www.reddit.com/r/test'' ?a" by code_simp
  have b: "urlMatchesSiteRules exampleURL ''https://www.reddit.com/r/test'' ?b" by code_simp
  have g: "getBlockedSites (exampleState [?a, ?b] Map.empty []) = [] @ ?a # [] @ ?b # []"
    by (simp add: getBlockedSites_def exampleState_def)
  show ?thesis
    using a b g findMatchingBlockedSite_first [of exampleURL "''https://www.reddit.com/r/test''"
        "exampleState [?a, ?b] Map.empty []" ?a "[]" ?a "[]" ?b "[]"]
    by simp
qed

section \<open>The unlock ledger: claims\<close>

text \<open>
  C6. \<open>grantAccess\<close> answers the current time plus the duration in minutes (sixty when
  it is \<open>null\<close>) as milliseconds, stores the grant with that expiry for the site in place
  of whatever was stored for it, leaves the other sites' grants alone and registers the
  alarm of the site for the expiry. From the state it leaves, at any time before the
  expiry \<open>isSiteUnlocked\<close> answers \<open>true\<close> and \<open>getUnlockState\<close> the grant, both without
  changing the state; at any time from the expiry on both delete the entry and answer
  \<open>false\<close> and \<open>null\<close>, and every later call of either on the state without the entry
  answers the same and changes nothing.
\<close>

theorem grant_then_lazy_expiry:
  "grantAccess pf sid durationMinutes now st = (e, st') \<Longrightarrow>
   e = now + (case durationMinutes of None \<Rightarrow> 60 | Some d \<Rightarrow> d) * 60 * 1000 \<and>
   unlockedSites st' sid = Some \<lparr>siteId = sid, expiresAt = e\<rparr> \<and>
   alarms st' (ALARM_PREFIX pf @ sid) = Some e \<and>
   (\<forall>other. other \<noteq> sid \<longrightarrow> unlockedSites st' other = unlockedSites st other) \<and>
   (\<forall>t. t < e \<longrightarrow>
      isSiteUnlocked sid t st' = (True, st') \<and>
      getUnlockState sid t st' = (Some \<lparr>siteId = sid, expiresAt = e\<rparr>, st')) \<and>
   (\<forall>t. e \<le> t \<longrightarrow>
      (let gone = st'\<lparr>unlockedSites := (unlockedSites st')(sid := None)\<rparr>
       in isSiteUnlocked sid t st' = (False, gone) \<and>
          getUnlockState sid t st' = (None, gone) \<and>
          unlockedSites gone sid = None \<and>
          (\<forall>t'. isSiteUnlocked sid t' gone = (False, gone) \<and>
                getUnlockState sid t' gone = (None, gone))))"
  by (auto simp: grantAccess_def isSiteUnlocked_def getUnlockState_def Let_def)

theorem grant_then_lazy_expiry_witness:
  "fst (grantAccess examplePlatform ''s1'' None 1000 (exampleState [] Map.empty [])) = 3601000 \<and>
   fst (isSiteUnlocked ''s1'' 3600999
     (snd (grantAccess examplePlatform ''s1'' None 1000 (exampleState [] Map.empty [])))) = True \<and>
   fst (isSiteUnlocked ''s1'' 3601000
     (snd (grantAccess examplePlatform ''s1'' None 1000 (exampleState [] Map.empty [])))) = False \<and>
   fst (getUnlockState ''s1'' 3601000
     (snd (grantAccess examplePlatform ''s1'' None 1000 (exampleState [] Map.empty [])))) = None"
proof -
  let ?g = "grantAccess examplePlatform ''s1'' None 1000 (exampleState [] Map.empty [])"
  have g: "?g = (fst ?g, snd ?g)" by simp
  have e: "fst ?g = 3601000" by (simp add: grantAccess_def)
  have lt: "(3600999::int) < 3601000" and ge: "(3601000::int) \<le> 3601000" by simp_all
  from grant_then_lazy_expiry [OF g] e lt ge show ?thesis
    by (simp add: Let_def)
qed

lemma findTabs_frame:
  "cachedSites st' = cachedSites st \<Longrightarrow> tabs st' = tabs st \<Longrightarrow>
   findTabsOnBlockedSite pf newURL sid st' = findTabsOnBlockedSite pf newURL sid st"
  by (simp add: findTabsOnBlockedSite_def split: option.splits)

text \<open>
  C7. The claim as stated fails: in \<open>regrantedState\<close> the grant of \<open>s1\<close> runs until
  3630000, and the alarm of the first grant, handled at 60000, removes it.
\<close>

theorem stale_alarm_evicts_newer_grant:
  "unlockedSites regrantedState ''s1'' = Some \<lparr>siteId = ''s1'', expiresAt = 3630000\<rparr> \<and>
   fst (isSiteUnlocked ''s1'' 60000 regrantedState) = True \<and>
   fst (handleRelockAlarm examplePlatform exampleURL ''relock-s1'' regrantedState) =
     Some (''s1'', []) \<and>
   unlockedSites (snd (handleRelockAlarm examplePlatform exampleURL ''relock-s1'' regrantedState))
     ''s1'' = None \<and>
   fst (isSiteUnlocked ''s1'' 60000
     (snd (handleRelockAlarm examplePlatform exampleURL ''relock-s1'' regrantedState))) = False"
  by (simp add: regrantedState_def grantAccess_def exampleState_def examplePlatform_def
      handleRelockAlarm_def revokeAccess_def findTabsOnBlockedSite_def isSiteUnlocked_def
      startsWith_def Let_def)

text \<open>
  C7, amended. For an alarm name with the prefix, \<open>handleRelockAlarm\<close> answers the site
  id behind the prefix with the tabs on that site, and afterwards no grant is stored for
  that id, whatever expiry the stored grant had: the handler compares nothing with the
  alarm. Grants of other sites stay. A name without the prefix changes nothing.
\<close>

theorem handleRelockAlarm_unconditional:
  "(startsWith alarmName (ALARM_PREFIX pf) \<longrightarrow>
      (let sid = drop (length (ALARM_PREFIX pf)) alarmName
       in fst (handleRelockAlarm pf newURL alarmName st) =
            Some (sid, findTabsOnBlockedSite pf newURL sid st) \<and>
          unlockedSites (snd (handleRelockAlarm pf newURL alarmName st)) sid = None \<and>
          (\<forall>other. other \<noteq> sid \<longrightarrow>
             unlockedSites (snd (handleRelockAlarm pf newURL alarmName st)) other =
             unlockedSites st other))) \<and>
   (\<not> startsWith alarmName (ALARM_PREFIX pf) \<longrightarrow>
      handleRelockAlarm pf newURL alarmName st = (None, st))"
proof -
  let ?sid = "drop (length (ALARM_PREFIX pf)) alarmName"
  let ?st2 = "st\<lparr>unlockedSites := (unlockedSites st)(?sid := None),
                alarms := (alarms st)(ALARM_PREFIX pf @ ?sid := None)\<rparr>"
  have tabs_same: "findTabsOnBlockedSite pf newURL ?sid ?st2 = findTabsOnBlockedSite pf newURL ?sid st"
    by (rule findTabs_frame) simp_all
  have rev: "revokeAccess pf newURL ?sid st = (findTabsOnBlockedSite pf newURL ?sid st, ?st2)"
    using tabs_same by (simp add: revokeAccess_def Let_def)
  show ?thesis
    by (simp add: handleRelockAlarm_def rev Let_def)
qed

theorem handleRelockAlarm_unconditional_witness:
  "startsWith ''relock-s1'' (ALARM_PREFIX examplePlatform) \<and>
   unlockedSites (snd (handleRelockAlarm examplePlatform exampleURL ''relock-s1'' regrantedState))
     ''s1'' = None \<and>
   \<not> startsWith ''tick'' (ALARM_PREFIX examplePlatform) \<and>
   handleRelockAlarm examplePlatform exampleURL ''tick'' regrantedState = (None, regrantedState)"
proof -
  have a: "startsWith ''relock-s1'' (ALARM_PREFIX examplePlatform)" by code_simp
  have b: "\<not> startsWith ''tick'' (ALARM_PREFIX examplePlatform)" by code_simp
  have c: "drop (length (ALARM_PREFIX examplePlatform)) ''relock-s1'' = ''s1''" by code_simp
  show ?thesis
    using handleRelockAlarm_unconditional [of "''relock-s1''" examplePlatform exampleURL regrantedState]
      handleRelockAlarm_unconditional [of "''tick''" examplePlatform exampleURL regrantedState]
      a b c
    by (simp add: Let_def)
qed

text \<open>
  C8. The claim as stated fails: site \<open>s1\<close> of \<open>openTabState\<close> has no grant, and revoking
  it answers the open tab 7.
\<close>

theorem revoke_without_grant_counterexample:
  "unlockedSites openTabState ''s1'' = None \<and>
   fst (revokeAccess examplePlatform exampleURL ''s1'' openTabState) = [7]"
proof -
  have "unlockedSites openTabState ''s1'' = None"
    by (simp add: openTabState_def exampleState_def)
  moreover have "fst (revokeAccess examplePlatform exampleURL ''s1'' openTabState) = [7]"
    by code_simp
  ultimately show ?thesis by simp
qed

lemma tabsLoop_empty:
  "(tabsLoop pf newURL site ts acc = []) =
   (acc = [] \<and>
    (\<forall>tab\<in>set ts. \<forall>i u. id_tab tab = Some i \<and> url_tab tab = Some u \<and> i \<noteq> 0 \<and> u \<noteq> [] \<and>
        \<not> isInternalUrl pf u \<longrightarrow> \<not> urlMatchesSiteRules newURL u site))"
proof (induction ts arbitrary: acc)
  case Nil
  then show ?case by simp
next
  case (Cons tab ts)
  show ?case
    by (cases "id_tab tab"; cases "url_tab tab") (auto simp: Cons.IH)
qed

lemma urlMatchesPattern_outcome_value:
  "urlMatchesPattern_outcome newURL url pat = Inr (urlMatchesPattern newURL url pat)"
  by (simp add: urlMatchesPattern_outcome_def urlMatchesPattern_def split: sum.splits)

lemma rulesLoop_outcome_value:
  "rulesLoop_outcome newURL url rs isBlocked = Inr (rulesLoop newURL url rs isBlocked)"
  by (induction rs arbitrary: isBlocked) (simp_all add: urlMatchesPattern_outcome_value)

lemma urlMatchesSiteRules_outcome_value:
  "urlMatchesSiteRules_outcome newURL url site = Inr (urlMatchesSiteRules newURL url site)"
  by (simp add: urlMatchesSiteRules_outcome_def urlMatchesSiteRules_def rulesLoop_outcome_value)

lemma tabsLoop_outcome_value:
  "tabsLoop_outcome pf newURL site ts acc = Inr (tabsLoop pf newURL site ts acc)"
proof (induction ts arbitrary: acc)
  case Nil
  then show ?case by simp
next
  case (Cons tab ts)
  show ?case
    by (cases "id_tab tab"; cases "url_tab tab")
       (simp_all add: Cons.IH urlMatchesSiteRules_outcome_value)
qed

lemma revokeAccess_outcome_value:
  "revokeAccess_outcome pf newURL sid st = Inr (revokeAccess pf newURL sid st)"
  by (simp add: revokeAccess_outcome_def revokeAccess_def findTabsOnBlockedSite_outcome_def
      findTabsOnBlockedSite_def tabsLoop_outcome_value Let_def split: option.splits)

lemma tabsLoop_collects:
  "tabsLoop pf newURL site ts acc =
   acc @ [i. tab \<leftarrow> ts, Some i \<leftarrow> [id_tab tab], Some u \<leftarrow> [url_tab tab],
            i \<noteq> 0 \<and> u \<noteq> [] \<and> \<not> isInternalUrl pf u \<and> urlMatchesSiteRules newURL u site]"
proof (induction ts arbitrary: acc)
  case Nil
  then show ?case by simp
next
  case (Cons tab ts)
  show ?case
    by (cases "id_tab tab"; cases "url_tab tab") (simp_all add: Cons.IH)
qed

text \<open>
  C8, amended. \<open>revokeAccess\<close> raises no exception: the only one on its way, the
  parser's on the address of a tab, is caught inside the matcher. For a site id that no
  cached site has it answers the empty list. For a site id without a grant it leaves the
  ledger as it is. For the id of a cached site it answers, in the order of the tabs, the
  ids of the open tabs that have an id other than 0 and an address that is not empty, not
  internal and accepted by the site's rules; so the answer is empty exactly when no such
  tab is open, and a missing grant does not make it empty.
\<close>

theorem revokeAccess_without_grant:
  "revokeAccess_outcome pf newURL sid st = Inr (revokeAccess pf newURL sid st) \<and>
   ((\<forall>s\<in>set (cachedSites st). id_site s \<noteq> sid) \<longrightarrow>
      fst (revokeAccess pf newURL sid st) = []) \<and>
   (unlockedSites st sid = None \<longrightarrow>
      unlockedSites (snd (revokeAccess pf newURL sid st)) = unlockedSites st) \<and>
   (find (\<lambda>s. id_site s = sid) (cachedSites st) = Some site \<longrightarrow>
      fst (revokeAccess pf newURL sid st) =
        [i. tab \<leftarrow> tabs st, Some i \<leftarrow> [id_tab tab], Some u \<leftarrow> [url_tab tab],
            i \<noteq> 0 \<and> u \<noteq> [] \<and> \<not> isInternalUrl pf u \<and> urlMatchesSiteRules newURL u site] \<and>
      (fst (revokeAccess pf newURL sid st) = [] \<longleftrightarrow>
       (\<forall>tab\<in>set (tabs st). \<forall>i u.
          id_tab tab = Some i \<and> url_tab tab = Some u \<and> i \<noteq> 0 \<and> u \<noteq> [] \<and>
          \<not> isInternalUrl pf u \<longrightarrow> \<not> urlMatchesSiteRules newURL u site)))"
proof (intro conjI impI)
  show "revokeAccess_outcome pf newURL sid st = Inr (revokeAccess pf newURL sid st)"
    by (rule revokeAccess_outcome_value)
next
  assume "\<forall>s\<in>set (cachedSites st). id_site s \<noteq> sid"
  then have "find (\<lambda>s. id_site s = sid) (cachedSites st) = None"
    by (simp add: find_None_set)
  then show "fst (revokeAccess pf newURL sid st) = []"
    by (simp add: revokeAccess_def findTabsOnBlockedSite_def Let_def)
next
  assume "unlockedSites st sid = None"
  then have "(unlockedSites st)(sid := None) = unlockedSites st" by (rule fun_upd_idem)
  then show "unlockedSites (snd (revokeAccess pf newURL sid st)) = unlockedSites st"
    by (simp add: revokeAccess_def Let_def)
next
  assume known: "find (\<lambda>s. id_site s = sid) (cachedSites st) = Some site"
  have "fst (revokeAccess pf newURL sid st) = tabsLoop pf newURL site (tabs st) []"
    using known by (simp add: revokeAccess_def findTabsOnBlockedSite_def Let_def)
  then show "fst (revokeAccess pf newURL sid st) =
        [i. tab \<leftarrow> tabs st, Some i \<leftarrow> [id_tab tab], Some u \<leftarrow> [url_tab tab],
            i \<noteq> 0 \<and> u \<noteq> [] \<and> \<not> isInternalUrl pf u \<and> urlMatchesSiteRules newURL u site]"
    by (simp only: tabsLoop_collects append_Nil)
next
  assume "find (\<lambda>s. id_site s = sid) (cachedSites st) = Some site"
  then show "(fst (revokeAccess pf newURL sid st) = []) =
       (\<forall>tab\<in>set (tabs st). \<forall>i u.
          id_tab tab = Some i \<and> url_tab tab = Some u \<and> i \<noteq> 0 \<and> u \<noteq> [] \<and>
          \<not> isInternalUrl pf u \<longrightarrow> \<not> urlMatchesSiteRules newURL u site)"
    by (simp add: revokeAccess_def findTabsOnBlockedSite_def Let_def tabsLoop_empty)
qed

theorem revokeAccess_without_grant_witness:
  "''nobody'' \<notin> set (map id_site (cachedSites manyTabsState)) \<and>
   unlockedSites manyTabsState ''nobody'' = None \<and>
   revokeAccess_outcome examplePlatform exampleURL ''nobody'' manyTabsState =
     Inr (revokeAccess examplePlatform exampleURL ''nobody'' manyTabsState) \<and>
   fst (revokeAccess examplePlatform exampleURL ''nobody'' manyTabsState) = [] \<and>
   unlockedSites (snd (revokeAccess examplePlatform exampleURL ''nobody'' manyTabsState)) =
     unlockedSites manyTabsState \<and>
   find (\<lambda>s. id_site s = ''s1'') (cachedSites manyTabsState) =
     Some (exampleSite ''s1'' [\<lparr>pattern = ''reddit.com'', allow = False\<rparr>]) \<and>
   unlockedSites manyTabsState ''s1'' = None \<and>
   fst (revokeAccess examplePlatform exampleURL ''s1'' manyTabsState) = [7, 12] \<and>
   fst (revokeAccess examplePlatform exampleURL ''s1'' (manyTabsState\<lparr>tabs := []\<rparr>)) = []"
proof -
  let ?site = "exampleSite ''s1'' [\<lparr>pattern = ''reddit.com'', allow = False\<rparr>]"
  have a: "\<forall>s\<in>set (cachedSites manyTabsState). id_site s \<noteq> ''nobody''"
    by (simp add: manyTabsState_def exampleState_def exampleSite_def)
  have a': "''nobody'' \<notin> set (map id_site (cachedSites manyTabsState))"
    using a by auto
  have b: "unlockedSites manyTabsState ''nobody'' = None"
    by (simp add: manyTabsState_def exampleState_def)
  have b': "unlockedSites manyTabsState ''s1'' = None"
    by (simp add: manyTabsState_def exampleState_def)
  have c: "find (\<lambda>s. id_site s = ''s1'') (cachedSites manyTabsState) = Some ?site"
    by (simp add: manyTabsState_def exampleState_def exampleSite_def)
  have c': "find (\<lambda>s. id_site s = ''s1'') (cachedSites (manyTabsState\<lparr>tabs := []\<rparr>)) = Some ?site"
    using c by simp
  have ids: "[i. tab \<leftarrow> tabs manyTabsState, Some i \<leftarrow> [id_tab tab], Some u \<leftarrow> [url_tab tab],
                i \<noteq> 0 \<and> u \<noteq> [] \<and> \<not> isInternalUrl examplePlatform u \<and>
                urlMatchesSiteRules exampleURL u ?site] = [7, 12]"
    by code_simp
  show ?thesis
    using revokeAccess_without_grant [of examplePlatform exampleURL "''nobody''" manyTabsState ?site]
      revokeAccess_without_grant [of examplePlatform exampleURL "''s1''" manyTabsState ?site]
      revokeAccess_without_grant [of examplePlatform exampleURL "''s1''"
        "manyTabsState\<lparr>tabs := []\<rparr>" ?site] a a' b b' c c' ids
    by simp
qed

section \<open>The webRequest backend against the navigation pipeline\<close>

lemma isSiteUnlocked_fst:
  "fst (isSiteUnlocked sid now st) =
   (case unlockedSites st sid of None \<Rightarrow> False | Some s \<Rightarrow> now < expiresAt s)"
  by (simp add: isSiteUnlocked_def split: option.splits)

lemma shouldBlockLoop_find:
  "shouldBlockLoop newURL unl now url sites =
   (case find (\<lambda>site. urlMatchesSiteRules newURL url site \<and>
                 \<not> (case unl (id_site site) of None \<Rightarrow> False | Some s \<Rightarrow> now < expiresAt s)) sites of
      None \<Rightarrow> (False, None)
    | Some site \<Rightarrow> (True, Some site))"
  by (induction sites) (auto simp: urlMatchesSiteRules_def)

lemma shouldBlockUrl_find:
  "shouldBlockUrl newURL now url st =
   (case find (\<lambda>site. urlMatchesSiteRules newURL url site \<and>
                 \<not> fst (isSiteUnlocked (id_site site) now st)) (cachedSites st) of
      None \<Rightarrow> (False, None)
    | Some site \<Rightarrow> (True, Some site))"
  by (simp add: shouldBlockUrl_def shouldBlockLoop_find isSiteUnlocked_fst)

lemma find_Some_in: "find P xs = Some x \<Longrightarrow> x \<in> set xs \<and> P x"
  by (induction xs) (auto split: if_splits)

lemma find_stronger:
  "find P xs = Some x \<Longrightarrow> Q x \<Longrightarrow> find (\<lambda>y. P y \<and> Q y) xs = Some x"
  by (induction xs) (auto split: if_splits)

text \<open>
  C1. The claim as stated fails: in \<open>overlappingState\<close> the first site that accepts the
  address is unlocked, so the pipeline (and \<open>checkAndBlockUrl\<close>) lets the navigation
  pass, while \<open>shouldBlockUrl\<close> skips that site and blocks on the second.
\<close>

theorem shouldBlockUrl_pipeline_counterexample:
  "storedSites overlappingState = Some (cachedSites overlappingState) \<and>
   fst (shouldBlockUrl exampleURL 0 ''https://www.reddit.com/r/test'' overlappingState) = True \<and>
   navigationPipeline exampleURL 0 ''https://www.reddit.com/r/test'' overlappingState = False \<and>
   fst (checkAndBlockUrl examplePlatform exampleURL 0 ''https://www.reddit.com/r/test''
          overlappingState) = None"
  by code_simp

text \<open>
  C1, amended. With a fresh cache, \<open>shouldBlockUrl\<close> reports blocked exactly when some
  cached site accepts the address and is not unlocked, and the site it reports is the
  first such site: unlocked sites are skipped, they do not end the search. Whenever the
  pipeline blocks, \<open>shouldBlockUrl\<close> blocks too, on the pipeline's site. The two differ
  exactly when the first accepting site is unlocked and another accepting site is not.
\<close>

theorem shouldBlockUrl_skips_unlocked:
  assumes fresh: "storedSites st = Some (cachedSites st)"
  shows
  "(fst (shouldBlockUrl newURL now url st) \<longleftrightarrow>
      (\<exists>site\<in>set (cachedSites st). urlMatchesSiteRules newURL url site \<and>
         \<not> fst (isSiteUnlocked (id_site site) now st))) \<and>
   snd (shouldBlockUrl newURL now url st) =
      find (\<lambda>site. urlMatchesSiteRules newURL url site \<and>
              \<not> fst (isSiteUnlocked (id_site site) now st)) (cachedSites st) \<and>
   (navigationPipeline newURL now url st \<longrightarrow>
      shouldBlockUrl newURL now url st = (True, findMatchingBlockedSite newURL url st)) \<and>
   (fst (shouldBlockUrl newURL now url st) \<noteq> navigationPipeline newURL now url st \<longleftrightarrow>
      (\<exists>first. findMatchingBlockedSite newURL url st = Some first \<and>
         fst (isSiteUnlocked (id_site first) now st) \<and>
         (\<exists>site\<in>set (cachedSites st). urlMatchesSiteRules newURL url site \<and>
            \<not> fst (isSiteUnlocked (id_site site) now st))))"
proof -
  let ?M = "\<lambda>site. urlMatchesSiteRules newURL url site"
  let ?U = "\<lambda>site. fst (isSiteUnlocked (id_site site) now st)"
  have fm: "findMatchingBlockedSite newURL url st = find ?M (cachedSites st)"
    by (simp add: findMatchingBlockedSite_def getBlockedSites_def fresh)
  have blocked: "fst (shouldBlockUrl newURL now url st) =
      (\<exists>site\<in>set (cachedSites st). ?M site \<and> \<not> ?U site)"
  proof (cases "find (\<lambda>site. ?M site \<and> \<not> ?U site) (cachedSites st)")
    case None
    then have "\<forall>x\<in>set (cachedSites st). \<not> (?M x \<and> \<not> ?U x)"
      by (simp only: find_None_set)
    moreover from None have "\<not> fst (shouldBlockUrl newURL now url st)"
      by (simp add: shouldBlockUrl_find)
    ultimately show ?thesis by blast
  next
    case (Some f)
    then have "f \<in> set (cachedSites st) \<and> (?M f \<and> \<not> ?U f)"
      by (rule find_Some_in)
    moreover from Some have "fst (shouldBlockUrl newURL now url st)"
      by (simp add: shouldBlockUrl_find)
    ultimately show ?thesis by blast
  qed
  have site: "snd (shouldBlockUrl newURL now url st) =
      find (\<lambda>site. ?M site \<and> \<not> ?U site) (cachedSites st)"
    by (simp add: shouldBlockUrl_find split: option.splits)
  have pipe: "navigationPipeline newURL now url st \<longrightarrow>
      shouldBlockUrl newURL now url st = (True, findMatchingBlockedSite newURL url st)"
  proof
    assume "navigationPipeline newURL now url st"
    then obtain f where f: "find ?M (cachedSites st) = Some f" "\<not> ?U f"
      by (auto simp: navigationPipeline_def fm split: option.splits)
    then have "find (\<lambda>site. ?M site \<and> \<not> ?U site) (cachedSites st) = Some f"
      by (rule find_stronger)
    with f show "shouldBlockUrl newURL now url st = (True, findMatchingBlockedSite newURL url st)"
      by (simp add: shouldBlockUrl_find fm)
  qed
  have differ: "(fst (shouldBlockUrl newURL now url st) \<noteq> navigationPipeline newURL now url st) =
      (\<exists>first. findMatchingBlockedSite newURL url st = Some first \<and> ?U first \<and>
         (\<exists>site\<in>set (cachedSites st). ?M site \<and> \<not> ?U site))"
  proof (cases "find ?M (cachedSites st)")
    case None
    then have "\<forall>x\<in>set (cachedSites st). \<not> ?M x" by (simp add: find_None_set)
    with None show ?thesis
      by (auto simp: blocked navigationPipeline_def fm)
  next
    case (Some f)
    show ?thesis
    proof (cases "?U f")
      case True
      with Some show ?thesis by (simp add: blocked navigationPipeline_def fm)
    next
      case False
      with Some have "navigationPipeline newURL now url st"
        by (simp add: navigationPipeline_def fm)
      with pipe False Some show ?thesis by (simp add: fm)
    qed
  qed
  from blocked site pipe differ show ?thesis by blast
qed

theorem shouldBlockUrl_skips_unlocked_witness:
  "storedSites openTabState = Some (cachedSites openTabState) \<and>
   navigationPipeline exampleURL 0 ''https://www.reddit.com/r/test'' openTabState \<and>
   shouldBlockUrl exampleURL 0 ''https://www.reddit.com/r/test'' openTabState =
     (True, Some (exampleSite ''s1'' [\<lparr>pattern = ''reddit.com'', allow = False\<rparr>])) \<and>
   storedSites overlappingState = Some (cachedSites overlappingState) \<and>
   snd (shouldBlockUrl exampleURL 0 ''https://www.reddit.com/r/test'' overlappingState) =
     Some (exampleSite ''s2'' [\<lparr>pattern = ''*.reddit.com'', allow = False\<rparr>])"
proof -
  let ?u = "''https://www.reddit.com/r/test''"
  have f1: "storedSites openTabState = Some (cachedSites openTabState)" by code_simp
  have p1: "navigationPipeline exampleURL 0 ?u openTabState" by code_simp
  have m1: "findMatchingBlockedSite exampleURL ?u openTabState =
      Some (exampleSite ''s1'' [\<lparr>pattern = ''reddit.com'', allow = False\<rparr>])" by code_simp
  have f2: "storedSites overlappingState = Some (cachedSites overlappingState)" by code_simp
  have m2: "find (\<lambda>site. urlMatchesSiteRules exampleURL ?u site \<and>
              \<not> fst (isSiteUnlocked (id_site site) 0 overlappingState))
            (cachedSites overlappingState) =
      Some (exampleSite ''s2'' [\<lparr>pattern = ''*.reddit.com'', allow = False\<rparr>])" by code_simp
  show ?thesis
    using shouldBlockUrl_skips_unlocked [OF f1, of exampleURL 0 ?u]
      shouldBlockUrl_skips_unlocked [OF f2, of exampleURL 0 ?u] f1 p1 m1 f2 m2
    by simp
qed

end
